theory Spec2Isabelle
  imports Complex_Main "HOL-Library.Stream"
begin

section \<open>Values of the harness\<close>

text \<open>
  \<^verbatim>\<open>scripts/evaluate_mcp.py\<close> works on what \<^verbatim>\<open>json.loads\<close> returns: \<^verbatim>\<open>None\<close>,
  \<^verbatim>\<open>bool\<close>, \<^verbatim>\<open>int\<close>, \<^verbatim>\<open>float\<close>, \<^verbatim>\<open>str\<close>, \<^verbatim>\<open>list\<close> and \<^verbatim>\<open>dict\<close> with string keys.
  A \<^verbatim>\<open>dict\<close> is an association list in insertion order; a lookup takes the first
  binding of a key, so every association list stands for one dictionary. The payload
  of a \<^verbatim>\<open>float\<close> is never inspected by the script.
\<close>

datatype json =
    JNull
  | JBool bool
  | JInt int
  | JFloat real
  | JStr string
  | JArr "json list"
  | JObj "(string \<times> json) list"

type_synonym dict = "(string \<times> json) list"

text \<open>
  The exceptions the modelled code can raise. The three \<^verbatim>\<open>RuntimeError\<close>s of the
  script carry an f-string; \<open>message\<close> has one constructor for each, with the
  interpolated values:
  \<^item> \<open>NotStarted name\<close>: \<^verbatim>\<open>f"Server {self.name} not started"\<close>
  \<^item> \<open>ClosedUnexpectedly name stderr\<close>:
    \<^verbatim>\<open>f"Server {self.name} closed unexpectedly: {stderr}"\<close>
  \<^item> \<open>ErrorListingTools err\<close>: \<^verbatim>\<open>f"Error listing tools: {response['error']}"\<close>
  \<^verbatim>\<open>KeyError\<close> carries the key, \<^verbatim>\<open>TimeoutExpired\<close> is \<^verbatim>\<open>subprocess.TimeoutExpired\<close>.
  \<^verbatim>\<open>JSONDecodeError\<close> is \<^verbatim>\<open>json.JSONDecodeError\<close>; \<open>ValueError\<close> stands for a
  \<^verbatim>\<open>ValueError\<close> that is not a \<^verbatim>\<open>JSONDecodeError\<close>, which an
  \<^verbatim>\<open>except json.JSONDecodeError\<close> clause does not catch.
\<close>

datatype message =
    NotStarted string
  | ClosedUnexpectedly string string
  | ErrorListingTools json

datatype pyerror =
    RuntimeError message
  | TypeError
  | AttributeError
  | KeyError json
  | IndexError
  | TimeoutExpired
  | JSONDecodeError
  | ValueError
  | RecursionError

text \<open>
  \<^verbatim>\<open>json.loads\<close> on a string is a parameter of the model: it returns the decoded
  value or raises. On text that is not JSON it raises \<^verbatim>\<open>JSONDecodeError\<close>, but not
  only that: CPython raises a plain \<^verbatim>\<open>ValueError\<close> on an integer literal of more
  than 4300 digits and \<^verbatim>\<open>RecursionError\<close> on very deep nesting.
\<close>

type_synonym decoder = "string \<Rightarrow> pyerror + json"

text \<open>\<^verbatim>\<open>d.keys()\<close> and \<^verbatim>\<open>key in d\<close> for a dictionary.\<close>

definition keys :: "dict \<Rightarrow> string set" where
  "keys d = set (map fst d)"

definition has_key :: "string \<Rightarrow> dict \<Rightarrow> bool" where
  "has_key k d = (k \<in> keys d)"

text \<open>\<^verbatim>\<open>isinstance(v, list)\<close>, \<^verbatim>\<open>len(v)\<close> of a list, and \<^verbatim>\<open>type(v).__name__\<close>.\<close>

fun is_list :: "json \<Rightarrow> bool" where
  "is_list (JArr xs) = True"
| "is_list v = False"

fun list_len :: "json \<Rightarrow> nat" where
  "list_len (JArr xs) = length xs"
| "list_len v = 0"

fun type_name :: "json \<Rightarrow> string" where
  "type_name JNull = ''NoneType''"
| "type_name (JBool b) = ''bool''"
| "type_name (JInt i) = ''int''"
| "type_name (JFloat f) = ''float''"
| "type_name (JStr s) = ''str''"
| "type_name (JArr xs) = ''list''"
| "type_name (JObj d) = ''dict''"

section \<open>Differential comparator: \<^verbatim>\<open>compare_results\<close>\<close>

text \<open>
  One constructor per f-string that \<^verbatim>\<open>compare_results\<close> appends to \<^verbatim>\<open>differences\<close>,
  carrying the values the f-string interpolates:
  \<^item> \<open>PythonErrored\<close>: \<^verbatim>\<open>"Python returned error, TypeScript did not"\<close>
  \<^item> \<open>TypeScriptErrored\<close>: \<^verbatim>\<open>"TypeScript returned error, Python did not"\<close>
  \<^item> \<open>KeysMissingInTypeScript s\<close>: \<^verbatim>\<open>f"Keys missing in TypeScript: {missing_in_ts}"\<close>
  \<^item> \<open>KeysMissingInPython s\<close>: \<^verbatim>\<open>f"Keys missing in Python: {missing_in_py}"\<close>
  \<^item> \<open>ArrayLengthDiffers key n m\<close>:
    \<^verbatim>\<open>f"Array '{key}' length differs: Python={len(py_val)}, TypeScript={len(ts_val)}"\<close>
  \<^item> \<open>TypeMismatch key a b\<close>:
    \<^verbatim>\<open>f"Type mismatch for '{key}': Python={type(py_val).__name__}, TypeScript=..."\<close>
\<close>

datatype difference =
    PythonErrored
  | TypeScriptErrored
  | KeysMissingInTypeScript "string set"
  | KeysMissingInPython "string set"
  | ArrayLengthDiffers string nat nat
  | TypeMismatch string string string

text \<open>The key a per-key difference is about (the \<^verbatim>\<open>'{key}'\<close> of its f-string).\<close>

fun about_key :: "difference \<Rightarrow> string option" where
  "about_key (ArrayLengthDiffers key n m) = Some key"
| "about_key (TypeMismatch key a b) = Some key"
| "about_key d = None"

definition default_ignore_keys :: "string set" where
  "default_ignore_keys =
     {''updated'', ''created'', ''created_on'', ''updated_on'', ''date'', ''timestamp''}"

text \<open>
  The body of \<^verbatim>\<open>for key in py_keys & ts_keys\<close> (lines 192--200): the differences after
  one key, from the differences before it. \<^verbatim>\<open>py_result[key]\<close> raises \<^verbatim>\<open>KeyError\<close> on a
  key the dictionary lacks.
\<close>

definition compare_key ::
  "dict \<Rightarrow> dict \<Rightarrow> string \<Rightarrow> difference list \<Rightarrow> pyerror + difference list" where
  "compare_key py_result ts_result key differences =
     (case map_of py_result key of
        None \<Rightarrow> Inl (KeyError (JStr key))
      | Some py_val \<Rightarrow>
          (case map_of ts_result key of
             None \<Rightarrow> Inl (KeyError (JStr key))
           | Some ts_val \<Rightarrow>
               if is_list py_val \<and> is_list ts_val then
                 (if list_len py_val \<noteq> list_len ts_val
                  then Inr (differences @
                         [ArrayLengthDiffers key (list_len py_val) (list_len ts_val)])
                  else Inr differences)
               else if type_name py_val \<noteq> type_name ts_val
               then Inr (differences @
                      [TypeMismatch key (type_name py_val) (type_name ts_val)])
               else Inr differences))"

text \<open>The loop itself, over the keys in the order the set is iterated.\<close>

fun compare_common ::
  "dict \<Rightarrow> dict \<Rightarrow> string list \<Rightarrow> difference list \<Rightarrow> pyerror + difference list" where
  "compare_common py_result ts_result [] differences = Inr differences"
| "compare_common py_result ts_result (key # rest) differences =
     (case compare_key py_result ts_result key differences of
        Inl e \<Rightarrow> Inl e
      | Inr differences' \<Rightarrow> compare_common py_result ts_result rest differences')"

text \<open>
  Lines 178--202: the key-set comparison and the loop over the common keys.
  Python does not fix the order in which a \<^verbatim>\<open>set\<close> of strings is iterated, so the
  order is the parameter \<open>set_iter\<close>: the list of the elements of a set as the
  \<^verbatim>\<open>for\<close> statement visits them.
\<close>

definition compare_fields ::
  "(string set \<Rightarrow> string list) \<Rightarrow> dict \<Rightarrow> dict \<Rightarrow> string set \<Rightarrow> difference list
     \<Rightarrow> pyerror + difference list" where
  "compare_fields set_iter py_result ts_result ignore_keys differences =
     (let py_keys = keys py_result - ignore_keys;
          ts_keys = keys ts_result - ignore_keys;
          missing_in_ts = py_keys - ts_keys;
          missing_in_py = ts_keys - py_keys;
          differences1 =
            (if py_keys \<noteq> ts_keys \<and> missing_in_ts \<noteq> {}
             then differences @ [KeysMissingInTypeScript missing_in_ts] else differences);
          differences2 =
            (if py_keys \<noteq> ts_keys \<and> missing_in_py \<noteq> {}
             then differences1 @ [KeysMissingInPython missing_in_py] else differences1)
      in compare_common py_result ts_result (set_iter (py_keys \<inter> ts_keys)) differences2)"

text \<open>Lines 165--166: \<^verbatim>\<open>if ignore_keys is None: ignore_keys = {...}\<close>.\<close>

definition resolve_ignore :: "string set option \<Rightarrow> string set" where
  "resolve_ignore ignore_keys_arg =
     (case ignore_keys_arg of None \<Rightarrow> default_ignore_keys | Some s \<Rightarrow> s)"

text \<open>
  \<^verbatim>\<open>compare_results(py_result, ts_result, ignore_keys=None)\<close>, lines 163--202. The
  first two branches of the error check append and fall through to the field
  comparison; the third returns.
\<close>

definition compare_results ::
  "(string set \<Rightarrow> string list) \<Rightarrow> dict \<Rightarrow> dict \<Rightarrow> string set option
     \<Rightarrow> pyerror + difference list" where
  "compare_results set_iter py_result ts_result ignore_keys_arg =
     (let ignore_keys = resolve_ignore ignore_keys_arg;
          differences = []
      in if has_key ''error'' py_result \<and> \<not> has_key ''error'' ts_result then
           compare_fields set_iter py_result ts_result ignore_keys
             (differences @ [PythonErrored])
         else if \<not> has_key ''error'' py_result \<and> has_key ''error'' ts_result then
           compare_fields set_iter py_result ts_result ignore_keys
             (differences @ [TypeScriptErrored])
         else if has_key ''error'' py_result \<and> has_key ''error'' ts_result then
           Inr []
         else
           compare_fields set_iter py_result ts_result ignore_keys differences)"

text \<open>
  An iteration order is admissible for a set when it lists exactly the elements of
  the set, each once.
\<close>

definition enumerates :: "(string set \<Rightarrow> string list) \<Rightarrow> string set \<Rightarrow> bool" where
  "enumerates set_iter s = (set (set_iter s) = s \<and> distinct (set_iter s))"

text \<open>
  One admissible order on the keys of a given dictionary pair: the common keys in
  the order of the first dictionary. It instantiates \<open>set_iter\<close> at concrete inputs.
\<close>

definition in_order_of :: "string list \<Rightarrow> string set \<Rightarrow> string list" where
  "in_order_of ks s = remdups (filter (\<lambda>k. k \<in> s) ks)"

section \<open>Python operations on decoded values\<close>

text \<open>\<^verbatim>\<open>k in s\<close> for two strings: \<open>k\<close> occurs in \<open>s\<close> as a contiguous run.\<close>

fun substring :: "string \<Rightarrow> string \<Rightarrow> bool" where
  "substring k [] = (k = [])"
| "substring k (c # cs) = (take (length k) (c # cs) = k \<or> substring k cs)"

text \<open>
  \<^verbatim>\<open>k in v\<close> with a string \<open>k\<close>: key membership for a \<^verbatim>\<open>dict\<close>, element membership
  for a \<^verbatim>\<open>list\<close>, substring test for a \<^verbatim>\<open>str\<close>, and \<^verbatim>\<open>TypeError\<close> for the values
  that are not iterable.
\<close>

fun contains :: "string \<Rightarrow> json \<Rightarrow> pyerror + bool" where
  "contains k (JObj d) = Inr (has_key k d)"
| "contains k (JArr xs) = Inr (JStr k \<in> set xs)"
| "contains k (JStr s) = Inr (substring k s)"
| "contains k v = Inl TypeError"

text \<open>\<^verbatim>\<open>v.get(k, dflt)\<close>: only a \<^verbatim>\<open>dict\<close> has the method.\<close>

fun get :: "json \<Rightarrow> string \<Rightarrow> json \<Rightarrow> pyerror + json" where
  "get (JObj d) k dflt =
     (case map_of d k of None \<Rightarrow> Inr dflt | Some v \<Rightarrow> Inr v)"
| "get v k dflt = Inl AttributeError"

text \<open>\<^verbatim>\<open>v[k]\<close> with a string \<open>k\<close>.\<close>

fun subscript_key :: "json \<Rightarrow> string \<Rightarrow> pyerror + json" where
  "subscript_key (JObj d) k =
     (case map_of d k of None \<Rightarrow> Inl (KeyError (JStr k)) | Some v \<Rightarrow> Inr v)"
| "subscript_key v k = Inl TypeError"

text \<open>\<^verbatim>\<open>v[0]\<close>. The keys of a decoded \<^verbatim>\<open>dict\<close> are strings, so \<^verbatim>\<open>0\<close> is never one.\<close>

fun subscript_zero :: "json \<Rightarrow> pyerror + json" where
  "subscript_zero (JArr (x # xs)) = Inr x"
| "subscript_zero (JArr []) = Inl IndexError"
| "subscript_zero (JStr (c # cs)) = Inr (JStr [c])"
| "subscript_zero (JStr []) = Inl IndexError"
| "subscript_zero (JObj d) = Inl (KeyError (JInt 0))"
| "subscript_zero v = Inl TypeError"

text \<open>The truth value of \<open>v\<close> in a condition, and \<^verbatim>\<open>len(v)\<close>.\<close>

fun truthy :: "json \<Rightarrow> bool" where
  "truthy JNull = False"
| "truthy (JBool b) = b"
| "truthy (JInt i) = (i \<noteq> 0)"
| "truthy (JFloat f) = (f \<noteq> 0)"
| "truthy (JStr s) = (s \<noteq> [])"
| "truthy (JArr xs) = (xs \<noteq> [])"
| "truthy (JObj d) = (d \<noteq> [])"

fun len :: "json \<Rightarrow> pyerror + nat" where
  "len (JStr s) = Inr (length s)"
| "len (JArr xs) = Inr (length xs)"
| "len (JObj d) = Inr (length (remdups (map fst d)))"
| "len v = Inl TypeError"

section \<open>Sessions: \<^verbatim>\<open>MCPServer\<close>\<close>

text \<open>
  The subprocess behind \<^verbatim>\<open>self.process\<close>, as the script can observe it:
  \<^item> \<open>p_stdin\<close>: the messages written to its standard input, oldest first; an entry
    \<open>m\<close> stands for the line \<^verbatim>\<open>json.dumps(m) + "\n"\<close>;
  \<^item> \<open>p_stdout\<close>: the lines \<^verbatim>\<open>stdout.readline()\<close> will return, in order; the empty
    string is what \<^verbatim>\<open>readline\<close> returns at end of file;
  \<^item> \<open>p_stderr\<close>: what \<^verbatim>\<open>stderr.read()\<close> returns;
  \<^item> \<open>p_signals\<close>: the signals sent to it so far;
  \<^item> \<open>p_exited\<close>: whether it has exited;
  \<^item> \<open>p_exits_in_grace\<close>: whether it exits before the timeout of a \<^verbatim>\<open>wait\<close>
    runs out (a fact of the environment).
\<close>

datatype signal = SIGTERM | SIGKILL

record process =
  p_stdin :: "json list"
  p_stdout :: "string stream"
  p_stderr :: string
  p_signals :: "signal list"
  p_exited :: bool
  p_exits_in_grace :: bool

record MCPServer =
  name :: string
  command :: "string list"
  env :: "(string \<times> string) list"
  process :: "process option"

text \<open>
  The state of the module: the global \<^verbatim>\<open>_message_id\<close> and the lines printed to
  \<^verbatim>\<open>sys.stderr\<close>. (The progress lines printed to \<^verbatim>\<open>sys.stdout\<close> are not modelled.)
\<close>

record harness =
  message_id :: int
  sys_stderr :: "string list"

definition next_id :: "harness \<Rightarrow> int \<times> harness" where
  "next_id h = (message_id h + 1, h\<lparr>message_id := message_id h + 1\<rparr>)"

text \<open>Line 107: \<^verbatim>\<open>f"[{self.name}] Invalid JSON: {response_line[:100]}..."\<close>.\<close>

definition invalid_json_line :: "string \<Rightarrow> string \<Rightarrow> string" where
  "invalid_json_line nm response_line =
     ''['' @ nm @ ''] Invalid JSON: '' @ take 100 response_line @ ''...''"

text \<open>
  The \<^verbatim>\<open>while True\<close> loop of \<^verbatim>\<open>_send_request\<close>, lines 95--108. \<^verbatim>\<open>json.loads\<close> is the
  parameter \<open>loads\<close>. The loop need not end (a server may print lines without an
  \<^verbatim>\<open>id\<close> for ever), so its result is optional. Only \<^verbatim>\<open>JSONDecodeError\<close> is caught:
  any other exception of \<^verbatim>\<open>json.loads\<close>, and the \<^verbatim>\<open>TypeError\<close> of
  \<^verbatim>\<open>"id" in response\<close> on a decoded number, boolean or \<^verbatim>\<open>null\<close>, leaves the function.
\<close>

partial_function (option) read_response ::
  "decoder \<Rightarrow> string \<Rightarrow> harness \<Rightarrow> process
     \<Rightarrow> ((pyerror + json) \<times> harness \<times> process) option" where
  "read_response loads nm h p =
     (let response_line = shd (p_stdout p);
          p1 = p\<lparr>p_stdout := stl (p_stdout p)\<rparr>
      in if response_line = [] then
           Some (Inl (RuntimeError (ClosedUnexpectedly nm (p_stderr p1))),
                 h, p1\<lparr>p_stderr := []\<rparr>)
         else
           (case loads response_line of
              Inl e \<Rightarrow>
                if e = JSONDecodeError then
                  read_response loads nm
                    (h\<lparr>sys_stderr := sys_stderr h @ [invalid_json_line nm response_line]\<rparr>) p1
                else Some (Inl e, h, p1)
            | Inr response \<Rightarrow>
                (case contains ''id'' response of
                   Inl e \<Rightarrow> Some (Inl e, h, p1)
                 | Inr has_id \<Rightarrow>
                     if has_id then Some (Inr response, h, p1)
                     else read_response loads nm h p1)))"

text \<open>The request of lines 82--87.\<close>

definition request :: "int \<Rightarrow> string \<Rightarrow> json \<Rightarrow> json" where
  "request msg_id method params =
     JObj [(''jsonrpc'', JStr ''2.0''), (''id'', JInt msg_id),
           (''method'', JStr method), (''params'', params)]"

text \<open>
  \<^verbatim>\<open>_send_request(self, method, params)\<close>, lines 76--108. A process started by
  \<^verbatim>\<open>start\<close> has all three pipes, so \<^verbatim>\<open>not self.process\<close> is the only way to the
  first \<^verbatim>\<open>RuntimeError\<close>.
\<close>

definition send_request ::
  "decoder \<Rightarrow> string \<Rightarrow> json \<Rightarrow> harness \<Rightarrow> MCPServer
     \<Rightarrow> ((pyerror + json) \<times> harness \<times> MCPServer) option" where
  "send_request loads method params h self =
     (case process self of
        None \<Rightarrow> Some (Inl (RuntimeError (NotStarted (name self))), h, self)
      | Some p \<Rightarrow>
          (let (msg_id, h1) = next_id h;
               p1 = p\<lparr>p_stdin := p_stdin p @ [request msg_id method params]\<rparr>
           in case read_response loads (name self) h1 p1 of
                None \<Rightarrow> None
              | Some (r, h2, p2) \<Rightarrow> Some (r, h2, self\<lparr>process := Some p2\<rparr>)))"

section \<open>Tool invocation adapter\<close>

text \<open>Lines 127--129 of \<^verbatim>\<open>list_tools\<close>: what becomes of the response.\<close>

definition list_tools_result :: "json \<Rightarrow> pyerror + json" where
  "list_tools_result response =
     (case contains ''error'' response of
        Inl e \<Rightarrow> Inl e
      | Inr True \<Rightarrow>
          (case subscript_key response ''error'' of
             Inl e \<Rightarrow> Inl e
           | Inr err \<Rightarrow> Inl (RuntimeError (ErrorListingTools err)))
      | Inr False \<Rightarrow>
          (case get response ''result'' (JObj []) of
             Inl e \<Rightarrow> Inl e
           | Inr result \<Rightarrow> get result ''tools'' (JArr [])))"

definition list_tools ::
  "decoder \<Rightarrow> harness \<Rightarrow> MCPServer
     \<Rightarrow> ((pyerror + json) \<times> harness \<times> MCPServer) option" where
  "list_tools loads h self =
     (case send_request loads ''tools/list'' (JObj []) h self of
        None \<Rightarrow> None
      | Some (Inl e, h1, self1) \<Rightarrow> Some (Inl e, h1, self1)
      | Some (Inr response, h1, self1) \<Rightarrow> Some (list_tools_result response, h1, self1))"

text \<open>
  \<^verbatim>\<open>json.loads(text)\<close> inside the \<^verbatim>\<open>try\<close> of lines 145--148: \<^verbatim>\<open>JSONDecodeError\<close> gives
  the raw-text wrapper. The \<^verbatim>\<open>except\<close> clause catches nothing else: any other
  exception of \<^verbatim>\<open>json.loads\<close> leaves \<^verbatim>\<open>call_tool\<close>, and so does the \<^verbatim>\<open>TypeError\<close> for
  a \<open>text\<close> that is not a string.
\<close>

fun decode_text :: "decoder \<Rightarrow> json \<Rightarrow> pyerror + json" where
  "decode_text loads (JStr s) =
     (case loads s of
        Inl e \<Rightarrow> if e = JSONDecodeError then Inr (JObj [(''raw'', JStr s)]) else Inl e
      | Inr v \<Rightarrow> Inr v)"
| "decode_text loads v = Inl TypeError"

text \<open>Line 143: the condition \<^verbatim>\<open>contents and len(contents) > 0\<close>.\<close>

definition nonempty_contents :: "json \<Rightarrow> pyerror + bool" where
  "nonempty_contents contents =
     (if truthy contents
      then (case len contents of Inl e \<Rightarrow> Inl e | Inr n \<Rightarrow> Inr (n > 0))
      else Inr False)"

text \<open>Lines 137--149 of \<^verbatim>\<open>call_tool\<close>: what becomes of the response.\<close>

definition call_tool_result :: "decoder \<Rightarrow> json \<Rightarrow> pyerror + json" where
  "call_tool_result loads response =
     (case contains ''error'' response of
        Inl e \<Rightarrow> Inl e
      | Inr True \<Rightarrow>
          (case subscript_key response ''error'' of
             Inl e \<Rightarrow> Inl e
           | Inr err \<Rightarrow> Inr (JObj [(''error'', err)]))
      | Inr False \<Rightarrow>
          (case get response ''result'' (JObj []) of
             Inl e \<Rightarrow> Inl e
           | Inr result \<Rightarrow>
               (case get result ''content'' (JArr []) of
                  Inl e \<Rightarrow> Inl e
                | Inr contents \<Rightarrow>
                    (case nonempty_contents contents of
                       Inl e \<Rightarrow> Inl e
                     | Inr True \<Rightarrow>
                         (case subscript_zero contents of
                            Inl e \<Rightarrow> Inl e
                          | Inr first \<Rightarrow>
                              (case get first ''text'' (JStr ''{}'') of
                                 Inl e \<Rightarrow> Inl e
                               | Inr text \<Rightarrow> decode_text loads text))
                     | Inr False \<Rightarrow> Inr result))))"

definition call_tool ::
  "decoder \<Rightarrow> string \<Rightarrow> json \<Rightarrow> harness \<Rightarrow> MCPServer
     \<Rightarrow> ((pyerror + json) \<times> harness \<times> MCPServer) option" where
  "call_tool loads tool arguments h self =
     (case send_request loads ''tools/call''
             (JObj [(''name'', JStr tool), (''arguments'', arguments)]) h self of
        None \<Rightarrow> None
      | Some (Inl e, h1, self1) \<Rightarrow> Some (Inl e, h1, self1)
      | Some (Inr response, h1, self1) \<Rightarrow> Some (call_tool_result loads response, h1, self1))"

section \<open>Shutdown\<close>

text \<open>
  \<^verbatim>\<open>Popen.terminate()\<close> sends \<^verbatim>\<open>SIGTERM\<close> unless the child has exited already;
  \<^verbatim>\<open>Popen.wait(timeout=5)\<close> returns when the child has exited or exits in time, and
  raises \<^verbatim>\<open>TimeoutExpired\<close> otherwise.
\<close>

definition terminate :: "process \<Rightarrow> process" where
  "terminate p = (if p_exited p then p else p\<lparr>p_signals := p_signals p @ [SIGTERM]\<rparr>)"

definition wait :: "process \<Rightarrow> pyerror + process" where
  "wait p =
     (if p_exited p \<or> p_exits_in_grace p then Inr (p\<lparr>p_exited := True\<rparr>)
      else Inl TimeoutExpired)"

text \<open>
  \<^verbatim>\<open>stop(self)\<close>, lines 70--74. The session is returned also when \<^verbatim>\<open>wait\<close> raises,
  since the signal has been sent by then.
\<close>

definition stop :: "MCPServer \<Rightarrow> (pyerror + unit) \<times> MCPServer" where
  "stop self =
     (case process self of
        None \<Rightarrow> (Inr (), self)
      | Some p \<Rightarrow>
          (let p1 = terminate p
           in case wait p1 of
                Inl e \<Rightarrow> (Inl e, self\<lparr>process := Some p1\<rparr>)
              | Inr p2 \<Rightarrow> (Inr (), self\<lparr>process := Some p2\<rparr>)))"

text \<open>
  The \<^verbatim>\<open>finally\<close> block of \<^verbatim>\<open>run_evaluation\<close>, lines 360--366: \<^verbatim>\<open>ts_server.stop()\<close>,
  then \<^verbatim>\<open>py_server.stop()\<close> when there is a Python session. An exception of the
  first call leaves the block at once.
\<close>

definition teardown ::
  "MCPServer \<Rightarrow> MCPServer option \<Rightarrow> (pyerror + unit) \<times> MCPServer \<times> MCPServer option" where
  "teardown ts_server py_server =
     (case stop ts_server of
        (Inl e, ts1) \<Rightarrow> (Inl e, ts1, py_server)
      | (Inr u, ts1) \<Rightarrow>
          (case py_server of
             None \<Rightarrow> (Inr (), ts1, None)
           | Some py \<Rightarrow> (case stop py of (r, py1) \<Rightarrow> (r, ts1, Some py1))))"

section \<open>Auxiliary definitions\<close>

text \<open>What one pass through the loop body appends for a key bound on both sides.\<close>

definition key_difference :: "string \<Rightarrow> json \<Rightarrow> json \<Rightarrow> difference list" where
  "key_difference key py_val ts_val =
     (if is_list py_val \<and> is_list ts_val then
        (if list_len py_val \<noteq> list_len ts_val
         then [ArrayLengthDiffers key (list_len py_val) (list_len ts_val)] else [])
      else if type_name py_val \<noteq> type_name ts_val
      then [TypeMismatch key (type_name py_val) (type_name ts_val)] else [])"

fun common_differences :: "dict \<Rightarrow> dict \<Rightarrow> string list \<Rightarrow> difference list" where
  "common_differences py ts [] = []"
| "common_differences py ts (k # ks) =
     key_difference k (the (map_of py k)) (the (map_of ts k)) @ common_differences py ts ks"

text \<open>
  An in-memory session for concrete runs: a subprocess that has produced the given
  lines and then closed its output, behind a freshly constructed \<^verbatim>\<open>MCPServer\<close>; and
  the module state before the first request.
\<close>

definition line_queue :: "string list \<Rightarrow> string stream" where
  "line_queue ls = ls @- sconst []"

definition started :: "string \<Rightarrow> string list \<Rightarrow> bool \<Rightarrow> MCPServer" where
  "started nm ls in_grace =
     \<lparr>name = nm, command = [], env = [],
      process = Some \<lparr>p_stdin = [], p_stdout = line_queue ls, p_stderr = [],
                       p_signals = [], p_exited = False, p_exits_in_grace = in_grace\<rparr>\<rparr>"

definition idle :: harness where
  "idle = \<lparr>message_id = 0, sys_stderr = []\<rparr>"

text \<open>
  A decoder given by a finite table, for concrete runs: a listed string has the
  listed outcome of \<^verbatim>\<open>json.loads\<close>, and any other string raises \<^verbatim>\<open>JSONDecodeError\<close>.
  It stands for \<^verbatim>\<open>json.loads\<close> on the streams it is used with, whose other lines
  are not JSON.
\<close>

definition loads_of :: "(string \<times> (pyerror + json)) list \<Rightarrow> decoder" where
  "loads_of table s = (case map_of table s of None \<Rightarrow> Inl JSONDecodeError | Some r \<Rightarrow> r)"

text \<open>
  An integer literal of 5000 digits: longer than the 4300 digits CPython converts,
  so \<^verbatim>\<open>json.loads\<close> raises \<^verbatim>\<open>ValueError\<close> (not \<^verbatim>\<open>JSONDecodeError\<close>) on it, also
  when a space and words that are not JSON follow it.
\<close>

definition long_integer :: string where
  "long_integer = replicate 5000 (CHR ''1'')"


section \<open>Lemmas on the comparator\<close>

lemma has_key_map_of: "has_key k d \<longleftrightarrow> (\<exists>v. map_of d k = Some v)"
  unfolding has_key_def keys_def
  by (metis domIff dom_map_of_conv_image_fst image_set not_None_eq)

lemma in_keys_map_of: "k \<in> keys d \<longleftrightarrow> (\<exists>v. map_of d k = Some v)"
  using has_key_map_of by (simp add: has_key_def)

lemma compare_key_present:
  assumes "map_of py k = Some a" "map_of ts k = Some b"
  shows "compare_key py ts k ds = Inr (ds @ key_difference k a b)"
  using assms by (simp add: compare_key_def key_difference_def)

lemma compare_common_present:
  assumes "set ks \<subseteq> keys py \<inter> keys ts"
  shows "compare_common py ts ks ds = Inr (ds @ common_differences py ts ks)"
  using assms
proof (induction ks arbitrary: ds)
  case Nil
  then show ?case by simp
next
  case (Cons k ks)
  from Cons.prems obtain a b where ab: "map_of py k = Some a" "map_of ts k = Some b"
    by (auto simp: in_keys_map_of)
  from Cons.prems have sub: "set ks \<subseteq> keys py \<inter> keys ts" by simp
  show ?case
    by (simp add: compare_key_present [OF ab] Cons.IH [OF sub] ab)
qed

lemma key_difference_refl: "key_difference k v v = []"
  by (simp add: key_difference_def)

lemma common_differences_refl: "common_differences x x ks = []"
  by (induction ks) (simp_all add: key_difference_refl)

lemma filter_key_difference:
  "filter (\<lambda>d. about_key d = Some k) (key_difference k' a b) =
     (if k' = k then key_difference k' a b else [])"
  by (auto simp: key_difference_def)

lemma filter_common_differences:
  assumes "distinct ks"
  shows "filter (\<lambda>d. about_key d = Some k) (common_differences py ts ks) =
     (if k \<in> set ks then key_difference k (the (map_of py k)) (the (map_of ts k)) else [])"
  using assms by (induction ks) (auto simp: filter_key_difference)

text \<open>
  With an admissible iteration order the field comparison raises nothing, only
  appends to the differences it is given, reports an asymmetry of the key sets, and
  holds for each common key what the loop body appends for it.
\<close>

lemma compare_fields_present:
  assumes "enumerates set_iter ((keys py - ign) \<inter> (keys ts - ign))"
  shows "\<exists>ds. compare_fields set_iter py ts ign pre = Inr (pre @ ds) \<and>
     compare_fields set_iter py ts ign [] = Inr ds \<and>
     ((keys py - ign) - (keys ts - ign) \<noteq> {} \<longrightarrow> ds \<noteq> []) \<and>
     ((keys ts - ign) - (keys py - ign) \<noteq> {} \<longrightarrow> ds \<noteq> []) \<and>
     filter (\<lambda>d. about_key d = Some k) ds =
       (if k \<in> (keys py - ign) \<inter> (keys ts - ign)
        then key_difference k (the (map_of py k)) (the (map_of ts k)) else [])"
proof -
  let ?common = "(keys py - ign) \<inter> (keys ts - ign)"
  have sub: "set (set_iter ?common) \<subseteq> keys py \<inter> keys ts"
    using assms by (auto simp: enumerates_def)
  have dist: "distinct (set_iter ?common)" and eq: "set (set_iter ?common) = ?common"
    using assms by (auto simp: enumerates_def)
  show ?thesis
    using filter_common_differences [OF dist, of k py ts] eq
    by (auto simp: compare_fields_def Let_def compare_common_present [OF sub])
qed

lemma enumerates_in_order_of:
  "s \<subseteq> set ks \<Longrightarrow> enumerates (in_order_of ks) s"
  by (auto simp: enumerates_def in_order_of_def)

section \<open>Lemmas on the receive loop\<close>

lemma read_response_invalid:
  assumes "p_stdout p = line ## rest" and "line \<noteq> []" and "loads line = Inl JSONDecodeError"
  shows "read_response loads nm h p =
     read_response loads nm (h\<lparr>sys_stderr := sys_stderr h @ [invalid_json_line nm line]\<rparr>)
       (p\<lparr>p_stdout := rest\<rparr>)"
  using assms by (subst read_response.simps) simp

lemma read_response_raises:
  assumes "p_stdout p = line ## rest" and "line \<noteq> []"
    and "loads line = Inl e" and "e \<noteq> JSONDecodeError"
  shows "read_response loads nm h p = Some (Inl e, h, p\<lparr>p_stdout := rest\<rparr>)"
  using assms by (subst read_response.simps) simp

lemma read_response_no_id:
  assumes "p_stdout p = line ## rest" and "line \<noteq> []"
    and "loads line = Inr v" and "contains ''id'' v = Inr False"
  shows "read_response loads nm h p = read_response loads nm h (p\<lparr>p_stdout := rest\<rparr>)"
  using assms by (subst read_response.simps) simp

lemma read_response_with_id:
  assumes "p_stdout p = line ## rest" and "line \<noteq> []"
    and "loads line = Inr v" and "contains ''id'' v = Inr True"
  shows "read_response loads nm h p = Some (Inr v, h, p\<lparr>p_stdout := rest\<rparr>)"
  using assms by (subst read_response.simps) simp

lemma read_response_skips:
  assumes "\<forall>l\<in>set skipped. l \<noteq> [] \<and>
             (loads l = Inl JSONDecodeError \<or>
              (\<exists>d. loads l = Inr (JObj d) \<and> \<not> has_key ''id'' d))"
    and "p_stdout p = skipped @- s"
  shows "read_response loads nm h p =
     read_response loads nm
       (h\<lparr>sys_stderr := sys_stderr h @
            map (invalid_json_line nm) (filter (\<lambda>l. loads l = Inl JSONDecodeError) skipped)\<rparr>)
       (p\<lparr>p_stdout := s\<rparr>)"
  using assms
proof (induction skipped arbitrary: h p)
  case Nil
  then have "p\<lparr>p_stdout := s\<rparr> = p" by (cases p) simp
  then show ?case by simp
next
  case (Cons l ls)
  from Cons.prems have l: "l \<noteq> []" and out: "p_stdout p = l ## (ls @- s)"
    and rest: "\<forall>l\<in>set ls. l \<noteq> [] \<and>
             (loads l = Inl JSONDecodeError \<or>
              (\<exists>d. loads l = Inr (JObj d) \<and> \<not> has_key ''id'' d))"
    by simp_all
  from Cons.prems consider (malformed) "loads l = Inl JSONDecodeError"
    | (notification) d where "loads l = Inr (JObj d)" "\<not> has_key ''id'' d"
    by auto
  then show ?case
  proof cases
    case malformed
    show ?thesis
      using Cons.IH [OF rest, of "p\<lparr>p_stdout := ls @- s\<rparr>"
          "h\<lparr>sys_stderr := sys_stderr h @ [invalid_json_line nm l]\<rparr>"]
      by (simp add: read_response_invalid [where loads = loads, OF out l malformed] malformed)
  next
    case notification
    have c: "contains ''id'' (JObj d) = Inr False" using notification(2) by simp
    show ?thesis
      using Cons.IH [OF rest, of "p\<lparr>p_stdout := ls @- s\<rparr>" h]
      by (simp add: read_response_no_id [where loads = loads, OF out l notification(1) c]
          notification(1))
  qed
qed

text \<open>
  Whatever the stream holds, a value the loop returns is the decoding of one of its
  lines, and \<^verbatim>\<open>"id" in response\<close> holds of it.
\<close>

lemma read_response_sound_aux:
  assumes "read_response loads nm h p = Some y"
  shows "\<forall>r. fst y = Inr r \<longrightarrow>
     contains ''id'' r = Inr True \<and> (\<exists>l\<in>sset (p_stdout p). loads l = Inr r)"
proof (rule read_response.raw_induct
    [where P = "\<lambda>loads nm h p y. \<forall>r. fst y = Inr r \<longrightarrow>
       contains ''id'' r = Inr True \<and> (\<exists>l\<in>sset (p_stdout p). loads l = Inr r)",
     OF _ assms], goal_cases)
  case (1 rr loads nm h p y)
  let ?line = "shd (p_stdout p)"
  let ?p1 = "p\<lparr>p_stdout := stl (p_stdout p)\<rparr>"
  have later: "contains ''id'' r = Inr True \<and> (\<exists>l\<in>sset (p_stdout p). loads l = Inr r)"
    if "rr loads nm h' ?p1 = Some y" and "fst y = Inr r" for h' r
  proof -
    from 1(1) [OF that(1)] that(2)
    have "contains ''id'' r = Inr True" and "\<exists>l\<in>sset (stl (p_stdout p)). loads l = Inr r"
      by simp_all
    then show ?thesis by (meson stl_sset)
  qed
  show ?case
  proof (intro allI impI)
    fix r assume r: "fst y = Inr r"
    show "contains ''id'' r = Inr True \<and> (\<exists>l\<in>sset (p_stdout p). loads l = Inr r)"
    proof (cases "?line = []")
      case True
      with 1(2) r show ?thesis by (auto simp: Let_def)
    next
      case False
      show ?thesis
      proof (cases "loads ?line")
        case (Inl e)
        show ?thesis
        proof (cases "e = JSONDecodeError")
          case True
          with 1(2) False Inl have "rr loads nm
              (h\<lparr>sys_stderr := sys_stderr h @ [invalid_json_line nm ?line]\<rparr>) ?p1 = Some y"
            by (simp add: Let_def)
          from later [OF this r] show ?thesis .
        next
          case ne: False
          with 1(2) False Inl r show ?thesis by (auto simp: Let_def)
        qed
      next
        case (Inr response)
        show ?thesis
        proof (cases "contains ''id'' response")
          case (Inl e)
          with 1(2) False Inr r show ?thesis by (auto simp: Let_def)
        next
          case has: (Inr has_id)
          show ?thesis
          proof (cases has_id)
            case True
            with 1(2) False Inr has r have "r = response" by (auto simp: Let_def)
            with Inr has True show ?thesis by (auto intro: shd_sset)
          next
            case no: False
            with 1(2) False Inr has have "rr loads nm h ?p1 = Some y"
              by (simp add: Let_def)
            from later [OF this r] show ?thesis .
          qed
        qed
      qed
    qed
  qed
qed

lemma send_request_sound:
  assumes "send_request loads method params h self = Some (Inr r, h', self')"
  shows "contains ''id'' r = Inr True \<and>
     (\<exists>p. process self = Some p \<and> (\<exists>l\<in>sset (p_stdout p). loads l = Inr r))"
proof (cases "process self")
  case None
  with assms show ?thesis by (simp add: send_request_def)
next
  case (Some p)
  let ?p1 = "p\<lparr>p_stdin := p_stdin p @ [request (message_id h + 1) method params]\<rparr>"
  from assms Some obtain p2 where
    "read_response loads (name self) (h\<lparr>message_id := message_id h + 1\<rparr>) ?p1 =
       Some (Inr r, h', p2)"
    by (auto simp: send_request_def next_id_def split: option.splits prod.splits)
  from read_response_sound_aux [OF this]
  have "contains ''id'' r = Inr True \<and> (\<exists>l\<in>sset (p_stdout ?p1). loads l = Inr r)"
    by simp
  with Some show ?thesis by simp
qed

lemma send_request_skips:
  assumes "process self = Some p"
    and "p_stdout p = skipped @- (line ## rest)"
    and "\<forall>l\<in>set skipped. l \<noteq> [] \<and>
           (loads l = Inl JSONDecodeError \<or>
            (\<exists>d. loads l = Inr (JObj d) \<and> \<not> has_key ''id'' d))"
    and "line \<noteq> []"
  shows "send_request loads method params h self =
     (case read_response loads (name self)
             (h\<lparr>message_id := message_id h + 1,
                sys_stderr := sys_stderr h @ map (invalid_json_line (name self))
                  (filter (\<lambda>l. loads l = Inl JSONDecodeError) skipped)\<rparr>)
             (p\<lparr>p_stdin := p_stdin p @ [request (message_id h + 1) method params],
                p_stdout := line ## rest\<rparr>) of
        None \<Rightarrow> None
      | Some (r, h2, p2) \<Rightarrow> Some (r, h2, self\<lparr>process := Some p2\<rparr>))"
proof -
  let ?p1 = "p\<lparr>p_stdin := p_stdin p @ [request (message_id h + 1) method params]\<rparr>"
  let ?h1 = "h\<lparr>message_id := message_id h + 1\<rparr>"
  have out: "p_stdout ?p1 = skipped @- (line ## rest)" using assms(2) by simp
  have "read_response loads (name self) ?h1 ?p1 =
      read_response loads (name self)
        (?h1\<lparr>sys_stderr := sys_stderr ?h1 @ map (invalid_json_line (name self))
            (filter (\<lambda>l. loads l = Inl JSONDecodeError) skipped)\<rparr>)
        (?p1\<lparr>p_stdout := line ## rest\<rparr>)"
    by (rule read_response_skips [OF assms(3) out])
  then show ?thesis
    using assms(1) by (simp add: send_request_def next_id_def)
qed

text \<open>After the skipped lines: a line that decodes to a value with an \<^verbatim>\<open>id\<close>.\<close>

lemma send_request_skips_then_returns:
  assumes "process self = Some p"
    and "p_stdout p = skipped @- (line ## rest)"
    and "\<forall>l\<in>set skipped. l \<noteq> [] \<and>
           (loads l = Inl JSONDecodeError \<or>
            (\<exists>d. loads l = Inr (JObj d) \<and> \<not> has_key ''id'' d))"
    and "line \<noteq> []" and "loads line = Inr v" and "contains ''id'' v = Inr True"
  shows "send_request loads method params h self =
     Some (Inr v,
           h\<lparr>message_id := message_id h + 1,
             sys_stderr := sys_stderr h @ map (invalid_json_line (name self))
               (filter (\<lambda>l. loads l = Inl JSONDecodeError) skipped)\<rparr>,
           self\<lparr>process := Some (p\<lparr>p_stdin :=
               p_stdin p @ [request (message_id h + 1) method params], p_stdout := rest\<rparr>)\<rparr>)"
  using read_response_with_id [where line = line and rest = rest and loads = loads and v = v
      and p = "p\<lparr>p_stdin := p_stdin p @ [request (message_id h + 1) method params],
                p_stdout := line ## rest\<rparr>"] assms(4-6)
  by (simp add: send_request_skips [OF assms(1-4)])

text \<open>After the skipped lines: a line on which \<^verbatim>\<open>json.loads\<close> raises something else.\<close>

lemma send_request_skips_then_raises:
  assumes "process self = Some p"
    and "p_stdout p = skipped @- (line ## rest)"
    and "\<forall>l\<in>set skipped. l \<noteq> [] \<and>
           (loads l = Inl JSONDecodeError \<or>
            (\<exists>d. loads l = Inr (JObj d) \<and> \<not> has_key ''id'' d))"
    and "line \<noteq> []" and "loads line = Inl e" and "e \<noteq> JSONDecodeError"
  shows "send_request loads method params h self =
     Some (Inl e,
           h\<lparr>message_id := message_id h + 1,
             sys_stderr := sys_stderr h @ map (invalid_json_line (name self))
               (filter (\<lambda>l. loads l = Inl JSONDecodeError) skipped)\<rparr>,
           self\<lparr>process := Some (p\<lparr>p_stdin :=
               p_stdin p @ [request (message_id h + 1) method params], p_stdout := rest\<rparr>)\<rparr>)"
  using read_response_raises [where line = line and rest = rest and loads = loads and e = e
      and p = "p\<lparr>p_stdin := p_stdin p @ [request (message_id h + 1) method params],
                p_stdout := line ## rest\<rparr>"] assms(4-6)
  by (simp add: send_request_skips [OF assms(1-4)])

text \<open>The first request of an in-memory session whose first line carries an \<^verbatim>\<open>id\<close>.\<close>

lemma started_first_line:
  assumes "line \<noteq> []" and "loads line = Inr v" and "contains ''id'' v = Inr True"
  shows "send_request loads method params idle (started nm (line # ls) g) =
     Some (Inr v, \<lparr>message_id = 1, sys_stderr = []\<rparr>,
       \<lparr>name = nm, command = [], env = [],
        process = Some \<lparr>p_stdin = [request 1 method params], p_stdout = line_queue ls,
           p_stderr = [], p_signals = [], p_exited = False, p_exits_in_grace = g\<rparr>\<rparr>)"
  using send_request_skips_then_returns [where loads = loads and v = v and line = line
      and skipped = "[]" and rest = "line_queue ls" and h = idle
      and self = "started nm (line # ls) g"
      and p = "\<lparr>p_stdin = [], p_stdout = line_queue (line # ls), p_stderr = [],
           p_signals = [], p_exited = False, p_exits_in_grace = g\<rparr>"] assms
  by (simp add: started_def line_queue_def idle_def)

lemma long_integer_nonempty: "long_integer \<noteq> []"
  unfolding long_integer_def by (simp only: replicate_empty)




section \<open>Claims on the comparator\<close>

text \<open>
  Claim C6. For every pair of result mappings that both contain an \<^verbatim>\<open>error\<close> key,
  \<^verbatim>\<open>compare_results\<close> returns the empty sequence, whatever the two error values, the
  other fields, the ignore set and the iteration order are.
\<close>

theorem compare_results_both_errored:
  assumes "has_key ''error'' py_result" and "has_key ''error'' ts_result"
  shows "compare_results set_iter py_result ts_result ignore_keys = Inr []"
  using assms by (simp add: compare_results_def)

theorem compare_results_both_errored_witness:
  "has_key ''error'' [(''error'', JInt 1)] \<and>
   has_key ''error'' [(''error'', JStr ''not found''), (''size'', JInt 2)] \<and>
   compare_results (in_order_of [''error'']) [(''error'', JInt 1)]
      [(''error'', JStr ''not found''), (''size'', JInt 2)] None = Inr []"
proof -
  have py: "has_key ''error'' [(''error'', JInt 1)]"
    by (simp add: has_key_def keys_def)
  have ts: "has_key ''error'' [(''error'', JStr ''not found''), (''size'', JInt 2)]"
    by (simp add: has_key_def keys_def)
  show ?thesis
    using py ts compare_results_both_errored [OF py ts, of "in_order_of [''error'']" None]
    by simp
qed

text \<open>
  Claim C9. \<^verbatim>\<open>compare_results\<close> is reflexive: for every mapping \<open>x\<close> and every ignore
  set (also the default one), \<^verbatim>\<open>compare_results(x, x, ignore)\<close> returns the empty
  sequence, in whatever order the common keys are visited.
\<close>

theorem compare_results_reflexive:
  assumes "enumerates set_iter (keys x - resolve_ignore ignore_keys)"
  shows "compare_results set_iter x x ignore_keys = Inr []"
proof -
  have "set (set_iter (keys x - resolve_ignore ignore_keys)) \<subseteq> keys x \<inter> keys x"
    using assms by (auto simp: enumerates_def)
  then have "compare_fields set_iter x x (resolve_ignore ignore_keys) [] = Inr []"
    by (simp add: compare_fields_def compare_common_present common_differences_refl)
  then show ?thesis
    by (simp add: compare_results_def)
qed

theorem compare_results_reflexive_witness:
  "enumerates (in_order_of [''values'', ''size''])
     (keys [(''values'', JArr [JInt 1]), (''size'', JInt 1)] - resolve_ignore None) \<and>
   compare_results (in_order_of [''values'', ''size''])
     [(''values'', JArr [JInt 1]), (''size'', JInt 1)]
     [(''values'', JArr [JInt 1]), (''size'', JInt 1)] None = Inr []"
proof -
  have e: "enumerates (in_order_of [''values'', ''size''])
     (keys [(''values'', JArr [JInt 1]), (''size'', JInt 1)] - resolve_ignore None)"
    by (simp add: enumerates_def in_order_of_def keys_def resolve_ignore_def
        default_ignore_keys_def)
  show ?thesis using e compare_results_reflexive [OF e] by simp
qed

text \<open>
  Claim C2, as the code has it. For every pair of result mappings where exactly one
  side contains an \<^verbatim>\<open>error\<close> key, the list \<^verbatim>\<open>compare_results\<close> returns starts with the
  difference naming the side that errored; the key-set and per-key comparison of all
  fields is still performed, and its differences follow. With \<^verbatim>\<open>error\<close> outside the
  ignore set there is at least one of them, so the list has more than one entry.
\<close>

theorem compare_results_one_errored:
  assumes "has_key ''error'' py_result \<noteq> has_key ''error'' ts_result"
    and "enumerates set_iter
           ((keys py_result - resolve_ignore ignore_keys) \<inter>
            (keys ts_result - resolve_ignore ignore_keys))"
  shows "\<exists>ds.
     compare_fields set_iter py_result ts_result (resolve_ignore ignore_keys) [] = Inr ds \<and>
     compare_results set_iter py_result ts_result ignore_keys =
       Inr ((if has_key ''error'' py_result then PythonErrored else TypeScriptErrored) # ds) \<and>
     (''error'' \<notin> resolve_ignore ignore_keys \<longrightarrow> ds \<noteq> [])"
proof -
  let ?ign = "resolve_ignore ignore_keys"
  let ?first = "if has_key ''error'' py_result then PythonErrored else TypeScriptErrored"
  from compare_fields_present [OF assms(2), of "[?first]"] obtain ds where
    pre: "compare_fields set_iter py_result ts_result ?ign [?first] = Inr ([?first] @ ds)"
    and emp: "compare_fields set_iter py_result ts_result ?ign [] = Inr ds"
    and l: "(keys py_result - ?ign) - (keys ts_result - ?ign) \<noteq> {} \<longrightarrow> ds \<noteq> []"
    and r: "(keys ts_result - ?ign) - (keys py_result - ?ign) \<noteq> {} \<longrightarrow> ds \<noteq> []"
    by blast
  have res: "compare_results set_iter py_result ts_result ignore_keys = Inr (?first # ds)"
    using assms(1) pre by (auto simp: compare_results_def)
  have "ds \<noteq> []" if "''error'' \<notin> ?ign"
    using that assms(1) l r by (auto simp: has_key_def)
  with emp res show ?thesis by blast
qed

theorem compare_results_one_errored_witness:
  "has_key ''error'' [(''error'', JStr ''boom'')] \<noteq> has_key ''error'' [(''values'', JArr [])] \<and>
   enumerates (in_order_of [''error''])
     ((keys [(''error'', JStr ''boom'')] - resolve_ignore None) \<inter>
      (keys [(''values'', JArr [])] - resolve_ignore None)) \<and>
   (\<exists>ds. ds \<noteq> [] \<and>
      compare_results (in_order_of [''error'']) [(''error'', JStr ''boom'')]
        [(''values'', JArr [])] None = Inr (PythonErrored # ds))"
proof -
  have one: "has_key ''error'' [(''error'', JStr ''boom'')] \<noteq>
      has_key ''error'' [(''values'', JArr [])]"
    by (simp add: has_key_def keys_def)
  have e: "enumerates (in_order_of [''error''])
     ((keys [(''error'', JStr ''boom'')] - resolve_ignore None) \<inter>
      (keys [(''values'', JArr [])] - resolve_ignore None))"
    by (simp add: enumerates_def in_order_of_def keys_def resolve_ignore_def
        default_ignore_keys_def)
  have py: "has_key ''error'' [(''error'', JStr ''boom'')]"
    by (simp add: has_key_def keys_def)
  have out: "''error'' \<notin> resolve_ignore None"
    by (simp add: resolve_ignore_def default_ignore_keys_def)
  from compare_results_one_errored [OF one e] py out
  have "\<exists>ds. ds \<noteq> [] \<and>
      compare_results (in_order_of [''error'']) [(''error'', JStr ''boom'')]
        [(''values'', JArr [])] None = Inr (PythonErrored # ds)"
    by auto
  with one e show ?thesis by blast
qed

text \<open>
  The claim as the specification states it (exactly one difference, no further
  comparison) fails: with an error on the Python side only, both key-set
  differences are reported after the error difference.
\<close>

theorem compare_results_one_errored_counterexample:
  "has_key ''error'' [(''error'', JStr ''boom'')] \<and>
   \<not> has_key ''error'' [(''values'', JArr [])] \<and>
   compare_results (in_order_of [''error'']) [(''error'', JStr ''boom'')]
     [(''values'', JArr [])] None =
     Inr [PythonErrored, KeysMissingInTypeScript {''error''}, KeysMissingInPython {''values''}]"
  by (simp add: compare_results_def compare_fields_def has_key_def keys_def
      resolve_ignore_def default_ignore_keys_def in_order_of_def)

text \<open>
  Claim C8, as the code has it. Unless both mappings contain an \<^verbatim>\<open>error\<close> key (the
  comparison then returns at once, see C6): for every key outside the ignore set
  that both sides bind to a sequence, \<^verbatim>\<open>compare_results\<close> reports no difference for
  that key when the two lengths are equal, whatever the elements are, and exactly one
  difference for it, naming both lengths, when they are unequal.
\<close>

theorem compare_results_sequence_lengths:
  assumes "\<not> (has_key ''error'' py_result \<and> has_key ''error'' ts_result)"
    and "key \<notin> resolve_ignore ignore_keys"
    and "map_of py_result key = Some (JArr xs)"
    and "map_of ts_result key = Some (JArr ys)"
    and "enumerates set_iter
           ((keys py_result - resolve_ignore ignore_keys) \<inter>
            (keys ts_result - resolve_ignore ignore_keys))"
  shows "\<exists>ds. compare_results set_iter py_result ts_result ignore_keys = Inr ds \<and>
     filter (\<lambda>d. about_key d = Some key) ds =
       (if length xs = length ys then []
        else [ArrayLengthDiffers key (length xs) (length ys)])"
proof -
  let ?ign = "resolve_ignore ignore_keys"
  have kin: "key \<in> (keys py_result - ?ign) \<inter> (keys ts_result - ?ign)"
    using assms(2,3,4) by (auto simp: in_keys_map_of)
  have kd: "key_difference key (JArr xs) (JArr ys) =
      (if length xs = length ys then [] else [ArrayLengthDiffers key (length xs) (length ys)])"
    by (simp add: key_difference_def)
  have flt: "\<exists>ds. compare_fields set_iter py_result ts_result ?ign pre = Inr (pre @ ds) \<and>
      filter (\<lambda>d. about_key d = Some key) ds =
        (if length xs = length ys then [] else [ArrayLengthDiffers key (length xs) (length ys)])"
    for pre
    using compare_fields_present [OF assms(5), of pre key] kin kd assms(3,4) by auto
  show ?thesis
  proof (cases "has_key ''error'' py_result \<or> has_key ''error'' ts_result")
    case False
    then show ?thesis using flt [of "[]"] by (auto simp: compare_results_def)
  next
    case True
    then show ?thesis
      using assms(1) flt [of "[PythonErrored]"] flt [of "[TypeScriptErrored]"]
      by (auto simp: compare_results_def)
  qed
qed

theorem compare_results_sequence_lengths_witness:
  "\<not> (has_key ''error'' [(''values'', JArr [JInt 1, JInt 2])] \<and>
      has_key ''error'' [(''values'', JArr [JInt 3])]) \<and>
   ''values'' \<notin> resolve_ignore None \<and>
   enumerates (in_order_of [''values''])
     ((keys [(''values'', JArr [JInt 1, JInt 2])] - resolve_ignore None) \<inter>
      (keys [(''values'', JArr [JInt 3])] - resolve_ignore None)) \<and>
   (\<exists>ds. compare_results (in_order_of [''values'']) [(''values'', JArr [JInt 1, JInt 2])]
       [(''values'', JArr [JInt 3])] None = Inr ds \<and>
     filter (\<lambda>d. about_key d = Some ''values'') ds = [ArrayLengthDiffers ''values'' 2 1])"
proof -
  have ne: "\<not> (has_key ''error'' [(''values'', JArr [JInt 1, JInt 2])] \<and>
      has_key ''error'' [(''values'', JArr [JInt 3])])"
    by (simp add: has_key_def keys_def)
  have out: "''values'' \<notin> resolve_ignore None"
    by (simp add: resolve_ignore_def default_ignore_keys_def)
  have py: "map_of [(''values'', JArr [JInt 1, JInt 2])] ''values'' = Some (JArr [JInt 1, JInt 2])"
    by simp
  have ts: "map_of [(''values'', JArr [JInt 3])] ''values'' = Some (JArr [JInt 3])"
    by simp
  have e: "enumerates (in_order_of [''values''])
     ((keys [(''values'', JArr [JInt 1, JInt 2])] - resolve_ignore None) \<inter>
      (keys [(''values'', JArr [JInt 3])] - resolve_ignore None))"
    by (simp add: enumerates_def in_order_of_def keys_def resolve_ignore_def
        default_ignore_keys_def)
  from compare_results_sequence_lengths [OF ne out py ts e]
  have "\<exists>ds. compare_results (in_order_of [''values'']) [(''values'', JArr [JInt 1, JInt 2])]
       [(''values'', JArr [JInt 3])] None = Inr ds \<and>
     filter (\<lambda>d. about_key d = Some ''values'') ds = [ArrayLengthDiffers ''values'' 2 1]"
    by (simp add: numeral_2_eq_2)
  with ne out e show ?thesis by blast
qed

text \<open>
  The claim as the specification states it (for every such key) fails when both
  sides carry \<^verbatim>\<open>error\<close>: the sequences under \<^verbatim>\<open>values\<close> have lengths 1 and 0, and no
  difference is reported.
\<close>

theorem compare_results_sequence_lengths_counterexample:
  "map_of [(''error'', JInt 1), (''values'', JArr [JInt 7])] ''values'' = Some (JArr [JInt 7]) \<and>
   map_of [(''error'', JInt 2), (''values'', JArr [])] ''values'' = Some (JArr []) \<and>
   ''values'' \<notin> resolve_ignore None \<and>
   length [JInt 7] \<noteq> length ([] :: json list) \<and>
   compare_results (in_order_of [''error'', ''values''])
     [(''error'', JInt 1), (''values'', JArr [JInt 7])]
     [(''error'', JInt 2), (''values'', JArr [])] None = Inr []"
  by (simp add: compare_results_def has_key_def keys_def resolve_ignore_def
      default_ignore_keys_def)

section \<open>Claims on the receive loop\<close>

text \<open>
  Claim C5, as the code has it. For every output stream in which lines on which
  \<^verbatim>\<open>json.loads\<close> raises \<^verbatim>\<open>JSONDecodeError\<close> and decoded objects without an \<^verbatim>\<open>id\<close> key
  precede a line that decodes to an object with an \<^verbatim>\<open>id\<close> key, \<^verbatim>\<open>_send_request\<close> skips
  each such line without aborting and returns: its value is that object, never one
  of the notifications before it, the stream is left right after that line, and
  \<^verbatim>\<open>sys.stderr\<close> has received one line for each malformed line and none for the
  notifications.
\<close>

theorem send_request_skips_noise:
  assumes "process self = Some p"
    and "p_stdout p = skipped @- (line ## rest)"
    and "\<forall>l\<in>set skipped. l \<noteq> [] \<and>
           (loads l = Inl JSONDecodeError \<or>
            (\<exists>d. loads l = Inr (JObj d) \<and> \<not> has_key ''id'' d))"
    and "line \<noteq> []" and "loads line = Inr (JObj d)" and "has_key ''id'' d"
  shows "send_request loads method params h self =
     Some (Inr (JObj d),
           h\<lparr>message_id := message_id h + 1,
             sys_stderr := sys_stderr h @ map (invalid_json_line (name self))
               (filter (\<lambda>l. loads l = Inl JSONDecodeError) skipped)\<rparr>,
           self\<lparr>process := Some (p\<lparr>p_stdin :=
               p_stdin p @ [request (message_id h + 1) method params], p_stdout := rest\<rparr>)\<rparr>)"
proof -
  have c: "contains ''id'' (JObj d) = Inr True" using assms(6) by simp
  show ?thesis
    by (rule send_request_skips_then_returns [OF assms(1-5) c])
qed

theorem send_request_skips_noise_witness:
  \<open>send_request
     (loads_of [(''{"jsonrpc": "2.0", "method": "notifications/message"}'',
                Inr (JObj [(''jsonrpc'', JStr ''2.0''),
                           (''method'', JStr ''notifications/message'')])),
               (''{"jsonrpc": "2.0", "id": 1, "result": {}}'',
                Inr (JObj [(''jsonrpc'', JStr ''2.0''), (''id'', JInt 1),
                           (''result'', JObj [])]))])
     ''tools/list'' (JObj []) idle
     (started ''Python''
        [''not json{'', ''{"jsonrpc": "2.0", "method": "notifications/message"}'',
         ''{"jsonrpc": "2.0", "id": 1, "result": {}}''] True) =
   Some (Inr (JObj [(''jsonrpc'', JStr ''2.0''), (''id'', JInt 1), (''result'', JObj [])]),
     \<lparr>message_id = 1, sys_stderr = [''[Python] Invalid JSON: not json{...'']\<rparr>,
     \<lparr>name = ''Python'', command = [], env = [],
      process = Some \<lparr>p_stdin = [request 1 ''tools/list'' (JObj [])],
         p_stdout = line_queue [], p_stderr = [], p_signals = [], p_exited = False,
         p_exits_in_grace = True\<rparr>\<rparr>)\<close>
  using send_request_skips_noise
    [where self = \<open>started ''Python''
        [''not json{'', ''{"jsonrpc": "2.0", "method": "notifications/message"}'',
         ''{"jsonrpc": "2.0", "id": 1, "result": {}}''] True\<close>
      and p = \<open>\<lparr>p_stdin = [], p_stdout = line_queue
        [''not json{'', ''{"jsonrpc": "2.0", "method": "notifications/message"}'',
         ''{"jsonrpc": "2.0", "id": 1, "result": {}}''], p_stderr = [],
         p_signals = [], p_exited = False, p_exits_in_grace = True\<rparr>\<close>
      and skipped = \<open>[''not json{'', ''{"jsonrpc": "2.0", "method": "notifications/message"}'']\<close>
      and line = \<open>''{"jsonrpc": "2.0", "id": 1, "result": {}}''\<close>
      and rest = \<open>line_queue []\<close>
      and loads = \<open>loads_of [(''{"jsonrpc": "2.0", "method": "notifications/message"}'',
                Inr (JObj [(''jsonrpc'', JStr ''2.0''),
                           (''method'', JStr ''notifications/message'')])),
               (''{"jsonrpc": "2.0", "id": 1, "result": {}}'',
                Inr (JObj [(''jsonrpc'', JStr ''2.0''), (''id'', JInt 1),
                           (''result'', JObj [])]))]\<close>
      and d = \<open>[(''jsonrpc'', JStr ''2.0''), (''id'', JInt 1), (''result'', JObj [])]\<close>
      and h = idle and params = \<open>JObj []\<close>]
  by (simp add: started_def line_queue_def idle_def invalid_json_line_def has_key_def keys_def
      loads_of_def)

text \<open>
  The claim as the specification states it (every line that is not valid JSON is
  skipped) fails. The first line is an integer literal of 5000 digits followed by
  text that is not JSON; \<^verbatim>\<open>json.loads\<close> raises \<^verbatim>\<open>ValueError\<close> on it, which
  \<^verbatim>\<open>except json.JSONDecodeError\<close> does not catch: the loop is left with that
  exception, nothing is logged, and the response line is still unread.
\<close>

theorem send_request_skips_noise_counterexample:
  \<open>send_request
     (loads_of [(long_integer @ '' garbage'', Inl ValueError),
               (''{"jsonrpc": "2.0", "id": 1, "result": {}}'',
                Inr (JObj [(''jsonrpc'', JStr ''2.0''), (''id'', JInt 1),
                           (''result'', JObj [])]))])
     ''tools/list'' (JObj []) idle
     (started ''Python''
        [long_integer @ '' garbage'', ''{"jsonrpc": "2.0", "id": 1, "result": {}}''] True) =
   Some (Inl ValueError,
     \<lparr>message_id = 1, sys_stderr = []\<rparr>,
     \<lparr>name = ''Python'', command = [], env = [],
      process = Some \<lparr>p_stdin = [request 1 ''tools/list'' (JObj [])],
         p_stdout = line_queue [''{"jsonrpc": "2.0", "id": 1, "result": {}}''],
         p_stderr = [], p_signals = [], p_exited = False, p_exits_in_grace = True\<rparr>\<rparr>)\<close>
  using send_request_skips_then_raises
    [where self = \<open>started ''Python''
        [long_integer @ '' garbage'', ''{"jsonrpc": "2.0", "id": 1, "result": {}}''] True\<close>
      and p = \<open>\<lparr>p_stdin = [], p_stdout = line_queue
        [long_integer @ '' garbage'', ''{"jsonrpc": "2.0", "id": 1, "result": {}}''],
         p_stderr = [], p_signals = [], p_exited = False, p_exits_in_grace = True\<rparr>\<close>
      and skipped = \<open>[]\<close>
      and line = \<open>long_integer @ '' garbage''\<close>
      and rest = \<open>line_queue [''{"jsonrpc": "2.0", "id": 1, "result": {}}'']\<close>
      and loads = \<open>loads_of [(long_integer @ '' garbage'', Inl ValueError),
               (''{"jsonrpc": "2.0", "id": 1, "result": {}}'',
                Inr (JObj [(''jsonrpc'', JStr ''2.0''), (''id'', JInt 1),
                           (''result'', JObj [])]))]\<close>
      and e = ValueError and h = idle and params = \<open>JObj []\<close>]
  by (simp add: started_def line_queue_def idle_def loads_of_def)

text \<open>
  Claim C1, as the code has it. For every input stream, a value \<^verbatim>\<open>_send_request\<close>
  returns is the decoding of a line of the stream of which \<^verbatim>\<open>"id" in response\<close>
  holds, so a decoded object without \<^verbatim>\<open>id\<close> (a notification) is never returned. The
  value of that \<^verbatim>\<open>id\<close> is not compared with the id of the request just sent: after
  lines on which \<^verbatim>\<open>json.loads\<close> raises \<^verbatim>\<open>JSONDecodeError\<close> and decoded objects without
  \<^verbatim>\<open>id\<close>, the first decoded object carrying any \<^verbatim>\<open>id\<close> is returned as the response,
  and nothing is raised for a mismatch.
\<close>

theorem send_request_any_id:
  "(send_request loads method params h self = Some (Inr r, h', self') \<longrightarrow>
      contains ''id'' r = Inr True \<and>
      (\<exists>q. process self = Some q \<and> (\<exists>l\<in>sset (p_stdout q). loads l = Inr r))) \<and>
   (process self = Some p \<and> p_stdout p = skipped @- (line ## rest) \<and>
    (\<forall>l\<in>set skipped. l \<noteq> [] \<and>
       (loads l = Inl JSONDecodeError \<or>
        (\<exists>d. loads l = Inr (JObj d) \<and> \<not> has_key ''id'' d))) \<and>
    line \<noteq> [] \<and> loads line = Inr (JObj d) \<and> map_of d ''id'' = Some i \<longrightarrow>
      send_request loads method params h self =
        Some (Inr (JObj d),
              h\<lparr>message_id := message_id h + 1,
                sys_stderr := sys_stderr h @ map (invalid_json_line (name self))
                  (filter (\<lambda>l. loads l = Inl JSONDecodeError) skipped)\<rparr>,
              self\<lparr>process := Some (p\<lparr>p_stdin :=
                p_stdin p @ [request (message_id h + 1) method params],
                p_stdout := rest\<rparr>)\<rparr>))"
proof (rule conjI; rule impI)
  assume "send_request loads method params h self = Some (Inr r, h', self')"
  then show "contains ''id'' r = Inr True \<and>
      (\<exists>q. process self = Some q \<and> (\<exists>l\<in>sset (p_stdout q). loads l = Inr r))"
    by (rule send_request_sound)
next
  assume a: "process self = Some p \<and> p_stdout p = skipped @- (line ## rest) \<and>
    (\<forall>l\<in>set skipped. l \<noteq> [] \<and>
       (loads l = Inl JSONDecodeError \<or>
        (\<exists>d. loads l = Inr (JObj d) \<and> \<not> has_key ''id'' d))) \<and>
    line \<noteq> [] \<and> loads line = Inr (JObj d) \<and> map_of d ''id'' = Some i"
  then have c: "contains ''id'' (JObj d) = Inr True"
    by (auto simp: has_key_map_of)
  from a have 1: "process self = Some p" and 2: "p_stdout p = skipped @- (line ## rest)"
    and 3: "\<forall>l\<in>set skipped. l \<noteq> [] \<and>
       (loads l = Inl JSONDecodeError \<or>
        (\<exists>d. loads l = Inr (JObj d) \<and> \<not> has_key ''id'' d))"
    and 4: "line \<noteq> []" and 5: "loads line = Inr (JObj d)"
    by blast+
  show "send_request loads method params h self =
        Some (Inr (JObj d),
              h\<lparr>message_id := message_id h + 1,
                sys_stderr := sys_stderr h @ map (invalid_json_line (name self))
                  (filter (\<lambda>l. loads l = Inl JSONDecodeError) skipped)\<rparr>,
              self\<lparr>process := Some (p\<lparr>p_stdin :=
                p_stdin p @ [request (message_id h + 1) method params],
                p_stdout := rest\<rparr>)\<rparr>)"
    by (rule send_request_skips_then_returns [OF 1 2 3 4 5 c])
qed

theorem send_request_any_id_witness:
  \<open>send_request
     (loads_of [(''{"jsonrpc": "2.0", "id": 7, "result": {}}'',
        Inr (JObj [(''jsonrpc'', JStr ''2.0''), (''id'', JInt 7), (''result'', JObj [])]))])
     ''initialize'' (JObj []) idle
     (started ''Python'' [''not json{'', ''{"jsonrpc": "2.0", "id": 7, "result": {}}''] True) =
   Some (Inr (JObj [(''jsonrpc'', JStr ''2.0''), (''id'', JInt 7), (''result'', JObj [])]),
     \<lparr>message_id = 1, sys_stderr = [''[Python] Invalid JSON: not json{...'']\<rparr>,
     \<lparr>name = ''Python'', command = [], env = [],
      process = Some \<lparr>p_stdin = [request 1 ''initialize'' (JObj [])],
         p_stdout = line_queue [], p_stderr = [], p_signals = [], p_exited = False,
         p_exits_in_grace = True\<rparr>\<rparr>) \<and>
   contains ''id'' (JObj [(''jsonrpc'', JStr ''2.0''), (''id'', JInt 7), (''result'', JObj [])])
     = Inr True\<close>
proof -
  note t = send_request_any_id
    [where self = \<open>started ''Python''
         [''not json{'', ''{"jsonrpc": "2.0", "id": 7, "result": {}}''] True\<close>
      and p = \<open>\<lparr>p_stdin = [], p_stdout = line_queue
         [''not json{'', ''{"jsonrpc": "2.0", "id": 7, "result": {}}''], p_stderr = [],
         p_signals = [], p_exited = False, p_exits_in_grace = True\<rparr>\<close>
      and skipped = \<open>[''not json{'']\<close>
      and line = \<open>''{"jsonrpc": "2.0", "id": 7, "result": {}}''\<close>
      and rest = \<open>line_queue []\<close>
      and loads = \<open>loads_of [(''{"jsonrpc": "2.0", "id": 7, "result": {}}'',
        Inr (JObj [(''jsonrpc'', JStr ''2.0''), (''id'', JInt 7), (''result'', JObj [])]))]\<close>
      and d = \<open>[(''jsonrpc'', JStr ''2.0''), (''id'', JInt 7), (''result'', JObj [])]\<close>
      and i = \<open>JInt 7\<close> and h = idle and params = \<open>JObj []\<close>
      and r = \<open>JObj [(''jsonrpc'', JStr ''2.0''), (''id'', JInt 7), (''result'', JObj [])]\<close>
      and h' = \<open>\<lparr>message_id = 1, sys_stderr = [''[Python] Invalid JSON: not json{...'']\<rparr>\<close>
      and self' = \<open>\<lparr>name = ''Python'', command = [], env = [],
        process = Some \<lparr>p_stdin = [request 1 ''initialize'' (JObj [])],
         p_stdout = line_queue [], p_stderr = [], p_signals = [], p_exited = False,
         p_exits_in_grace = True\<rparr>\<rparr>\<close>]
  show ?thesis
    using t
    by (simp add: started_def line_queue_def idle_def loads_of_def invalid_json_line_def)
qed

text \<open>
  The claim as the specification states it fails: the request just sent has id 1,
  the line on the stream carries id 99, and that object is returned; no exception is
  raised.
\<close>

theorem send_request_any_id_counterexample:
  \<open>send_request
     (loads_of [(''{"jsonrpc": "2.0", "id": 99, "result": {}}'',
        Inr (JObj [(''jsonrpc'', JStr ''2.0''), (''id'', JInt 99), (''result'', JObj [])]))])
     ''tools/list'' (JObj []) idle
     (started ''TypeScript'' [''{"jsonrpc": "2.0", "id": 99, "result": {}}''] True) =
   Some (Inr (JObj [(''jsonrpc'', JStr ''2.0''), (''id'', JInt 99), (''result'', JObj [])]),
     \<lparr>message_id = 1, sys_stderr = []\<rparr>,
     \<lparr>name = ''TypeScript'', command = [], env = [],
      process = Some \<lparr>p_stdin = [request 1 ''tools/list'' (JObj [])],
         p_stdout = line_queue [], p_stderr = [], p_signals = [], p_exited = False,
         p_exits_in_grace = True\<rparr>\<rparr>) \<and>
   map_of [(''jsonrpc'', JStr ''2.0''), (''id'', JInt 99), (''result'', JObj [])] ''id''
     \<noteq> Some (JInt 1)\<close>
  by (simp add: started_first_line has_key_def keys_def loads_of_def)

section \<open>Claims on the tool invocation adapter\<close>

text \<open>
  Claim C7, as the code has it. On a \<^verbatim>\<open>tools/list\<close> response that is an object whose
  \<^verbatim>\<open>result\<close> member, when present, is an object, \<^verbatim>\<open>list_tools\<close> raises if and only if
  the response carries an \<^verbatim>\<open>error\<close> key; otherwise it returns \<^verbatim>\<open>result.tools\<close>, and the
  empty sequence, not a failure, when \<^verbatim>\<open>result\<close> or \<^verbatim>\<open>tools\<close> is absent.
\<close>

theorem list_tools_fails_iff_error:
  assumes "send_request loads ''tools/list'' (JObj []) h self =
             Some (Inr (JObj response), h', self')"
    and "\<forall>v. map_of response ''result'' = Some v \<longrightarrow> (\<exists>result. v = JObj result)"
  shows "((\<exists>e. list_tools loads h self = Some (Inl e, h', self'))
            \<longleftrightarrow> has_key ''error'' response) \<and>
     (\<not> has_key ''error'' response \<longrightarrow>
        (\<forall>result tools. map_of response ''result'' = Some (JObj result) \<and>
            map_of result ''tools'' = Some tools
          \<longrightarrow> list_tools loads h self = Some (Inr tools, h', self')) \<and>
        (map_of response ''result'' = None \<or>
         (\<exists>result. map_of response ''result'' = Some (JObj result) \<and>
            map_of result ''tools'' = None)
          \<longrightarrow> list_tools loads h self = Some (Inr (JArr []), h', self')))"
proof -
  have lt: "list_tools loads h self = Some (list_tools_result (JObj response), h', self')"
    using assms(1) by (simp add: list_tools_def)
  show ?thesis
  proof (cases "has_key ''error'' response")
    case True
    then obtain err where "map_of response ''error'' = Some err"
      by (auto simp: has_key_map_of)
    with True show ?thesis
      by (simp add: lt list_tools_result_def)
  next
    case False
    show ?thesis
    proof (cases "map_of response ''result''")
      case None
      with False show ?thesis by (simp add: lt list_tools_result_def)
    next
      case (Some v)
      with assms(2) obtain result where v: "v = JObj result" by blast
      with Some False show ?thesis
        by (auto simp: lt list_tools_result_def split: option.splits)
    qed
  qed
qed

theorem list_tools_fails_iff_error_witness:
  \<open>\<not> has_key ''error'' [(''jsonrpc'', JStr ''2.0''), (''id'', JInt 1),
              (''result'', JObj [(''tools'', JArr [JObj [(''name'', JStr ''list_projects'')]])])] \<and>
   list_tools
     (loads_of [(''{"jsonrpc": "2.0", "id": 1, "result": {"tools": [{"name": "list_projects"}]}}'',
        Inr (JObj [(''jsonrpc'', JStr ''2.0''), (''id'', JInt 1),
              (''result'', JObj [(''tools'', JArr [JObj [(''name'', JStr ''list_projects'')]])])]))])
     idle
     (started ''TypeScript''
        [''{"jsonrpc": "2.0", "id": 1, "result": {"tools": [{"name": "list_projects"}]}}''] True) =
   Some (Inr (JArr [JObj [(''name'', JStr ''list_projects'')]]),
     \<lparr>message_id = 1, sys_stderr = []\<rparr>,
     \<lparr>name = ''TypeScript'', command = [], env = [],
      process = Some \<lparr>p_stdin = [request 1 ''tools/list'' (JObj [])],
         p_stdout = line_queue [], p_stderr = [], p_signals = [], p_exited = False,
         p_exits_in_grace = True\<rparr>\<rparr>)\<close>
proof -
  let ?line = \<open>''{"jsonrpc": "2.0", "id": 1, "result": {"tools": [{"name": "list_projects"}]}}''\<close>
  let ?response = "[(''jsonrpc'', JStr ''2.0''), (''id'', JInt 1),
      (''result'', JObj [(''tools'', JArr [JObj [(''name'', JStr ''list_projects'')]])])]"
  let ?loads = "loads_of [(?line, Inr (JObj ?response))]"
  have sent: "send_request ?loads ''tools/list'' (JObj []) idle
      (started ''TypeScript'' [?line] True) =
    Some (Inr (JObj ?response), \<lparr>message_id = 1, sys_stderr = []\<rparr>,
     \<lparr>name = ''TypeScript'', command = [], env = [],
      process = Some \<lparr>p_stdin = [request 1 ''tools/list'' (JObj [])],
         p_stdout = line_queue [], p_stderr = [], p_signals = [], p_exited = False,
         p_exits_in_grace = True\<rparr>\<rparr>)"
    by (rule started_first_line) (simp_all add: has_key_def keys_def loads_of_def)
  have shape: "\<forall>v. map_of ?response ''result'' = Some v \<longrightarrow> (\<exists>result. v = JObj result)"
    by simp
  have ok: "\<not> has_key ''error'' ?response"
    by (simp add: has_key_def keys_def)
  have tools: "map_of ?response ''result'' =
        Some (JObj [(''tools'', JArr [JObj [(''name'', JStr ''list_projects'')]])]) \<and>
      map_of [(''tools'', JArr [JObj [(''name'', JStr ''list_projects'')]])] ''tools'' =
        Some (JArr [JObj [(''name'', JStr ''list_projects'')]])"
    by simp
  from list_tools_fails_iff_error [OF sent shape] ok tools
  have "list_tools ?loads idle (started ''TypeScript'' [?line] True) =
      Some (Inr (JArr [JObj [(''name'', JStr ''list_projects'')]]),
        \<lparr>message_id = 1, sys_stderr = []\<rparr>,
        \<lparr>name = ''TypeScript'', command = [], env = [],
         process = Some \<lparr>p_stdin = [request 1 ''tools/list'' (JObj [])],
            p_stdout = line_queue [], p_stderr = [], p_signals = [], p_exited = False,
            p_exits_in_grace = True\<rparr>\<rparr>)"
    by blast
  with ok show ?thesis by (rule conjI)
qed

text \<open>
  The claim as the specification states it (raises if and only if the response
  carries \<^verbatim>\<open>error\<close>) fails on a response without \<^verbatim>\<open>error\<close> whose \<^verbatim>\<open>result\<close> is
  \<^verbatim>\<open>null\<close>: \<^verbatim>\<open>response.get("result", {})\<close> is \<^verbatim>\<open>None\<close>, and \<^verbatim>\<open>.get("tools", [])\<close> on it
  raises \<^verbatim>\<open>AttributeError\<close>.
\<close>

theorem list_tools_fails_iff_error_counterexample:
  \<open>\<not> has_key ''error'' [(''jsonrpc'', JStr ''2.0''), (''id'', JInt 1), (''result'', JNull)] \<and>
   list_tools
     (loads_of [(''{"jsonrpc": "2.0", "id": 1, "result": null}'',
        Inr (JObj [(''jsonrpc'', JStr ''2.0''), (''id'', JInt 1), (''result'', JNull)]))])
     idle
     (started ''TypeScript'' [''{"jsonrpc": "2.0", "id": 1, "result": null}''] True) =
   Some (Inl AttributeError,
     \<lparr>message_id = 1, sys_stderr = []\<rparr>,
     \<lparr>name = ''TypeScript'', command = [], env = [],
      process = Some \<lparr>p_stdin = [request 1 ''tools/list'' (JObj [])],
         p_stdout = line_queue [], p_stderr = [], p_signals = [], p_exited = False,
         p_exits_in_grace = True\<rparr>\<rparr>)\<close>
proof -
  let ?line = \<open>''{"jsonrpc": "2.0", "id": 1, "result": null}''\<close>
  let ?response = "[(''jsonrpc'', JStr ''2.0''), (''id'', JInt 1), (''result'', JNull)]"
  let ?loads = "loads_of [(?line, Inr (JObj ?response))]"
  have sent: "send_request ?loads ''tools/list'' (JObj []) idle
      (started ''TypeScript'' [?line] True) =
    Some (Inr (JObj ?response), \<lparr>message_id = 1, sys_stderr = []\<rparr>,
     \<lparr>name = ''TypeScript'', command = [], env = [],
      process = Some \<lparr>p_stdin = [request 1 ''tools/list'' (JObj [])],
         p_stdout = line_queue [], p_stderr = [], p_signals = [], p_exited = False,
         p_exits_in_grace = True\<rparr>\<rparr>)"
    by (rule started_first_line) (simp_all add: has_key_def keys_def loads_of_def)
  have ok: "\<not> has_key ''error'' ?response"
    by (simp add: has_key_def keys_def)
  have "list_tools_result (JObj ?response) = Inl AttributeError"
    by (simp add: list_tools_result_def has_key_def keys_def)
  with sent have "list_tools ?loads idle (started ''TypeScript'' [?line] True) =
      Some (Inl AttributeError, \<lparr>message_id = 1, sys_stderr = []\<rparr>,
        \<lparr>name = ''TypeScript'', command = [], env = [],
         process = Some \<lparr>p_stdin = [request 1 ''tools/list'' (JObj [])],
            p_stdout = line_queue [], p_stderr = [], p_signals = [], p_exited = False,
            p_exits_in_grace = True\<rparr>\<rparr>)"
    by (simp only: list_tools_def option.case prod.case sum.case)
  with ok show ?thesis by (rule conjI)
qed




text \<open>
  Claim C10. For every \<^verbatim>\<open>tools/call\<close> response without an \<^verbatim>\<open>error\<close> key whose
  \<^verbatim>\<open>result.content\<close> is a non-empty sequence and whose first content block has no
  \<^verbatim>\<open>text\<close> field, \<^verbatim>\<open>call_tool\<close> returns the empty mapping: the default string \<^verbatim>\<open>"{}"\<close>
  is decoded (\<^verbatim>\<open>json.loads("{}")\<close> is the empty mapping), so the result is neither the
  raw-text wrapper nor the enclosing \<^verbatim>\<open>result\<close>.
\<close>

theorem call_tool_block_without_text:
  assumes "send_request loads ''tools/call''
             (JObj [(''name'', JStr tool), (''arguments'', arguments)]) h self =
             Some (Inr (JObj response), h', self')"
    and "\<not> has_key ''error'' response"
    and "map_of response ''result'' = Some (JObj result)"
    and "map_of result ''content'' = Some (JArr (JObj block # blocks))"
    and "map_of block ''text'' = None"
    and "loads ''{}'' = Inr (JObj [])"
  shows "call_tool loads tool arguments h self = Some (Inr (JObj []), h', self')"
  using assms
  by (simp add: call_tool_def call_tool_result_def nonempty_contents_def)

theorem call_tool_block_without_text_witness:
  \<open>\<not> has_key ''error''
       [(''jsonrpc'', JStr ''2.0''), (''id'', JInt 1),
        (''result'', JObj [(''content'', JArr [JObj [(''type'', JStr ''image'')]])])] \<and>
   call_tool
     (loads_of [(''{"jsonrpc": "2.0", "id": 1, "result": {"content": [{"type": "image"}]}}'',
        Inr (JObj [(''jsonrpc'', JStr ''2.0''), (''id'', JInt 1),
              (''result'', JObj [(''content'', JArr [JObj [(''type'', JStr ''image'')]])])])),
        (''{}'', Inr (JObj []))])
     ''list_projects'' (JObj []) idle
     (started ''TypeScript''
        [''{"jsonrpc": "2.0", "id": 1, "result": {"content": [{"type": "image"}]}}''] True) =
   Some (Inr (JObj []),
     \<lparr>message_id = 1, sys_stderr = []\<rparr>,
     \<lparr>name = ''TypeScript'', command = [], env = [],
      process = Some \<lparr>p_stdin = [request 1 ''tools/call''
           (JObj [(''name'', JStr ''list_projects''), (''arguments'', JObj [])])],
         p_stdout = line_queue [], p_stderr = [], p_signals = [], p_exited = False,
         p_exits_in_grace = True\<rparr>\<rparr>)\<close>
proof -
  let ?line = \<open>''{"jsonrpc": "2.0", "id": 1, "result": {"content": [{"type": "image"}]}}''\<close>
  let ?block = "[(''type'', JStr ''image'')]"
  let ?result = "[(''content'', JArr [JObj ?block])]"
  let ?response = "[(''jsonrpc'', JStr ''2.0''), (''id'', JInt 1), (''result'', JObj ?result)]"
  let ?loads = "loads_of [(?line, Inr (JObj ?response)), (''{}'', Inr (JObj []))]"
  have sent: "send_request ?loads ''tools/call''
      (JObj [(''name'', JStr ''list_projects''), (''arguments'', JObj [])]) idle
      (started ''TypeScript'' [?line] True) =
    Some (Inr (JObj ?response), \<lparr>message_id = 1, sys_stderr = []\<rparr>,
     \<lparr>name = ''TypeScript'', command = [], env = [],
      process = Some \<lparr>p_stdin = [request 1 ''tools/call''
           (JObj [(''name'', JStr ''list_projects''), (''arguments'', JObj [])])],
         p_stdout = line_queue [], p_stderr = [], p_signals = [], p_exited = False,
         p_exits_in_grace = True\<rparr>\<rparr>)"
    by (rule started_first_line) (simp_all add: has_key_def keys_def loads_of_def)
  have ok: "\<not> has_key ''error'' ?response"
    by (simp add: has_key_def keys_def)
  have result: "map_of ?response ''result'' = Some (JObj ?result)" by simp
  have content: "map_of ?result ''content'' = Some (JArr (JObj ?block # []))" by simp
  have no_text: "map_of ?block ''text'' = None" by simp
  have empty: "?loads ''{}'' = Inr (JObj [])" by (simp add: loads_of_def)
  show ?thesis
    by (rule conjI [OF ok call_tool_block_without_text
          [OF sent ok result content no_text empty]])
qed

section \<open>Claims on shutdown\<close>

text \<open>
  Claim C3, as the code has it. For every started session \<^verbatim>\<open>stop()\<close> sends a terminate
  signal (unless the subprocess has exited already) and no other signal, so there is
  no forced kill, and waits up to the fixed grace period; when the subprocess exits
  within it, \<^verbatim>\<open>stop()\<close> returns normally, and when the subprocesses of both sessions
  do, the teardown of the orchestrator stops both sessions.
\<close>

theorem stop_terminates_and_waits:
  assumes "process self = Some p"
  shows "(\<exists>p'. process (snd (stop self)) = Some p' \<and>
            p_signals p' = p_signals p @ (if p_exited p then [] else [SIGTERM])) \<and>
     (p_exited p \<or> p_exits_in_grace p \<longrightarrow>
        stop self = (Inr (), self\<lparr>process := Some ((terminate p)\<lparr>p_exited := True\<rparr>)\<rparr>)) \<and>
     (\<forall>py q. process py = Some q \<and> (p_exited p \<or> p_exits_in_grace p) \<and>
          (p_exited q \<or> p_exits_in_grace q) \<longrightarrow>
        teardown self (Some py) =
          (Inr (), self\<lparr>process := Some ((terminate p)\<lparr>p_exited := True\<rparr>)\<rparr>,
           Some (py\<lparr>process := Some ((terminate q)\<lparr>p_exited := True\<rparr>)\<rparr>)))"
  using assms
  by (auto simp: stop_def teardown_def wait_def terminate_def Let_def)

theorem stop_terminates_and_waits_witness:
  "process (started ''TypeScript'' [] True) =
     Some \<lparr>p_stdin = [], p_stdout = line_queue [], p_stderr = [], p_signals = [],
           p_exited = False, p_exits_in_grace = True\<rparr> \<and>
   process (started ''Python'' [] True) =
     Some \<lparr>p_stdin = [], p_stdout = line_queue [], p_stderr = [], p_signals = [],
           p_exited = False, p_exits_in_grace = True\<rparr> \<and>
   teardown (started ''TypeScript'' [] True) (Some (started ''Python'' [] True)) =
     (Inr (),
      \<lparr>name = ''TypeScript'', command = [], env = [],
       process = Some \<lparr>p_stdin = [], p_stdout = line_queue [], p_stderr = [],
          p_signals = [SIGTERM], p_exited = True, p_exits_in_grace = True\<rparr>\<rparr>,
      Some \<lparr>name = ''Python'', command = [], env = [],
       process = Some \<lparr>p_stdin = [], p_stdout = line_queue [], p_stderr = [],
          p_signals = [SIGTERM], p_exited = True, p_exits_in_grace = True\<rparr>\<rparr>)"
proof -
  let ?p = "\<lparr>p_stdin = [], p_stdout = line_queue [], p_stderr = [], p_signals = [],
           p_exited = False, p_exits_in_grace = True\<rparr>"
  have ts: "process (started ''TypeScript'' [] True) = Some ?p"
    by (simp add: started_def)
  have py: "process (started ''Python'' [] True) = Some ?p"
    by (simp add: started_def)
  from stop_terminates_and_waits [OF ts] py
  have "teardown (started ''TypeScript'' [] True) (Some (started ''Python'' [] True)) =
      (Inr (),
       (started ''TypeScript'' [] True)\<lparr>process := Some ((terminate ?p)\<lparr>p_exited := True\<rparr>)\<rparr>,
       Some ((started ''Python'' [] True)\<lparr>process := Some ((terminate ?p)\<lparr>p_exited := True\<rparr>)\<rparr>))"
    by simp
  then show ?thesis
    using ts py by (simp add: started_def terminate_def)
qed

text \<open>
  The claim as the specification states it fails: the subprocess of the first
  session does not exit within the grace period, \<^verbatim>\<open>stop()\<close> raises \<^verbatim>\<open>TimeoutExpired\<close>
  out of the teardown, the subprocess has received \<^verbatim>\<open>SIGTERM\<close> only, and the second
  session is left as it was, with no signal sent.
\<close>

theorem teardown_timeout_counterexample:
  "teardown (started ''TypeScript'' [] False) (Some (started ''Python'' [] True)) =
     (Inl TimeoutExpired,
      \<lparr>name = ''TypeScript'', command = [], env = [],
       process = Some \<lparr>p_stdin = [], p_stdout = line_queue [], p_stderr = [],
          p_signals = [SIGTERM], p_exited = False, p_exits_in_grace = False\<rparr>\<rparr>,
      Some \<lparr>name = ''Python'', command = [], env = [],
       process = Some \<lparr>p_stdin = [], p_stdout = line_queue [], p_stderr = [],
          p_signals = [], p_exited = False, p_exits_in_grace = True\<rparr>\<rparr>)"
  by (simp add: teardown_def stop_def wait_def terminate_def started_def)

end
